theory Spec2Isabelle
  imports Main "HOL-Library.Sublist"
begin

section \<open>Python values\<close>

text \<open>
  Both modules handle values that come from \<^verbatim>\<open>json.loads\<close> and from the Ansible
  argument loader: \<^verbatim>\<open>None\<close>, booleans, integers, strings, lists and dicts with string
  keys. A dict is an association list in insertion order; a dict built by Python has
  pairwise distinct keys. Numbers with a fractional part are not part of the model.
\<close>

datatype pyval =
    PNone
  | PBool bool
  | PInt int
  | PStr string
  | PList "pyval list"
  | PDict "(string \<times> pyval) list"

type_synonym dict = "(string \<times> pyval) list"

datatype pyexc =
    KeyError string
  | TypeError
  | JSONDecodeError
  | ClientError string

text \<open>
  Python's \<^verbatim>\<open>==\<close>: \<^verbatim>\<open>True == 1\<close> and \<^verbatim>\<open>False == 0\<close> hold, lists are compared
  position by position, dicts by their key sets and the values under each key.
\<close>

fun py_eq :: "pyval \<Rightarrow> pyval \<Rightarrow> bool"
  and py_eq_list :: "pyval list \<Rightarrow> pyval list \<Rightarrow> bool" where
  "py_eq PNone PNone = True"
| "py_eq (PBool a) (PBool b) = (a = b)"
| "py_eq (PBool a) (PInt i) = ((if a then 1 else 0) = i)"
| "py_eq (PInt i) (PBool b) = (i = (if b then 1 else 0))"
| "py_eq (PInt i) (PInt j) = (i = j)"
| "py_eq (PStr s) (PStr t) = (s = t)"
| "py_eq (PList xs) (PList ys) = py_eq_list xs ys"
| "py_eq (PDict d) (PDict e) =
     (length d = length e \<and>
      (\<forall>(k, v) \<in> set d. \<exists>(k', w) \<in> set e. k = k' \<and> py_eq v w))"
| "py_eq _ _ = False"
| "py_eq_list [] [] = True"
| "py_eq_list (x # xs) (y # ys) = (py_eq x y \<and> py_eq_list xs ys)"
| "py_eq_list _ _ = False"

text \<open>Truth value of a Python value, as \<^verbatim>\<open>if v:\<close> takes it.\<close>

fun py_truthy :: "pyval \<Rightarrow> bool" where
  "py_truthy PNone = False"
| "py_truthy (PBool b) = b"
| "py_truthy (PInt i) = (i \<noteq> 0)"
| "py_truthy (PStr s) = (s \<noteq> [])"
| "py_truthy (PList xs) = (xs \<noteq> [])"
| "py_truthy (PDict d) = (d \<noteq> [])"

text \<open>
  \<^verbatim>\<open>v[k]\<close> with a string \<^verbatim>\<open>k\<close>: a dict raises \<^verbatim>\<open>KeyError\<close> on a missing key, every
  other value raises \<^verbatim>\<open>TypeError\<close>.
\<close>

fun py_getitem :: "pyval \<Rightarrow> string \<Rightarrow> pyexc + pyval" where
  "py_getitem (PDict d) k =
     (case map_of d k of None \<Rightarrow> Inl (KeyError k) | Some v \<Rightarrow> Inr v)"
| "py_getitem _ k = Inl TypeError"

text \<open>
  \<^verbatim>\<open>k in v\<close> with a string \<^verbatim>\<open>k\<close>: key membership in a dict, element membership in a
  list, substring test in a string, \<^verbatim>\<open>TypeError\<close> otherwise.
\<close>

fun py_contains :: "string \<Rightarrow> pyval \<Rightarrow> pyexc + bool" where
  "py_contains k (PDict d) = Inr (k \<in> fst ` set d)"
| "py_contains k (PList xs) = Inr (PStr k \<in> set xs)"
| "py_contains k (PStr s) = Inr (sublist k s)"
| "py_contains k _ = Inl TypeError"

text \<open>\<^verbatim>\<open>v + "literal"\<close>: defined when \<^verbatim>\<open>v\<close> is a string.\<close>

fun py_add_str :: "pyval \<Rightarrow> string \<Rightarrow> pyexc + string" where
  "py_add_str (PStr s) t = Inr (s @ t)"
| "py_add_str _ t = Inl TypeError"

text \<open>\<^verbatim>\<open>del d[k]\<close> and \<^verbatim>\<open>d.update({k: v})\<close> on a dict.\<close>

definition dict_del :: "string \<Rightarrow> dict \<Rightarrow> pyexc + dict" where
  "dict_del k d =
     (if k \<in> fst ` set d then Inr (filter (\<lambda>kv. fst kv \<noteq> k) d) else Inl (KeyError k))"

definition dict_update :: "string \<Rightarrow> pyval \<Rightarrow> dict \<Rightarrow> dict" where
  "dict_update k v d =
     (if k \<in> fst ` set d then map (\<lambda>kv. if fst kv = k then (k, v) else kv) d
      else d @ [(k, v)])"

text \<open>\<^verbatim>\<open>d.get(k)\<close>: \<^verbatim>\<open>None\<close> when the key is missing.\<close>

definition dict_get :: "dict \<Rightarrow> string \<Rightarrow> pyval" where
  "dict_get d k = (case map_of d k of None \<Rightarrow> PNone | Some v \<Rightarrow> v)"

section \<open>How a module run ends\<close>

text \<open>
  A message is the format string of the source cut at its \<^verbatim>\<open>%s\<close> places: \<open>Lit\<close> is a
  literal piece, \<open>Str v\<close> the text \<^verbatim>\<open>str(v)\<close>, \<open>ToNative v\<close> the text
  \<^verbatim>\<open>to_native(v)\<close>, \<open>MissingRequiredLib n\<close> the text \<^verbatim>\<open>missing_required_lib(n)\<close>.
  \<^verbatim>\<open>module.fail_json\<close> and \<^verbatim>\<open>module.exit_json\<close> end the process, as an uncaught
  exception does: nothing after them runs.
\<close>

datatype part =
    Lit string
  | Str pyval
  | ToNative pyval
  | MissingRequiredLib string

datatype exit =
    FailJson "part list"
  | ExitJson pyval "part list"
  | Raised pyexc

definition raise :: "pyexc + 'a \<Rightarrow> exit + 'a" where
  "raise r = (case r of Inl e \<Rightarrow> Inl (Raised e) | Inr v \<Rightarrow> Inr v)"

section \<open>The BIOS service-attribute module\<close>

text \<open>
  The Redfish client is outside the repository. A run sees it through the responses it
  gives: each \<^verbatim>\<open>get\<close> and \<^verbatim>\<open>patch\<close> returns a status and a text, which may depend on
  the requests made so far. The requests of a run are recorded in order.
  \<open>login_raises\<close> is the exception, if any, that building the client and
  \<^verbatim>\<open>redfishClient.login()\<close> end in; \<open>json_loads\<close> is \<^verbatim>\<open>json.loads\<close>, with \<open>None\<close> where
  it raises; \<open>HAS_REDFISH\<close> tells whether the import of the client library succeeded.
\<close>

datatype event =
    Login
  | Get string
  | Patch string pyval
  | Logout

record response =
  status :: int
  body_text :: string

record world =
  HAS_REDFISH :: bool
  login_raises :: "pyexc option"
  client_get :: "event list \<Rightarrow> string \<Rightarrow> response"
  client_patch :: "event list \<Rightarrow> string \<Rightarrow> pyval \<Rightarrow> response"
  json_loads :: "string \<Rightarrow> pyval option"

definition base_uri :: string where
  "base_uri = ''/redfish/v1/''"

definition system_uri :: string where
  "system_uri = ''systems/1/''"

definition error_msg :: "string \<Rightarrow> string \<Rightarrow> int \<Rightarrow> string \<Rightarrow> exit" where
  "error_msg method uri st resp =
     FailJson [Str (PStr method), Lit '' on '', Str (PStr uri),
               Lit '' Failed, Status: '', Str (PInt st),
               Lit '', Response: '', Str (PStr resp)]"

text \<open>
  The loop of \<^verbatim>\<open>validate_input_attributes\<close> over \<^verbatim>\<open>attributes.items()\<close>; the state is
  the pair of \<^verbatim>\<open>attrs_to_patch\<close> and \<^verbatim>\<open>attrs_bad\<close>.
\<close>

fun validate_loop ::
  "pyval \<Rightarrow> dict \<Rightarrow> dict \<Rightarrow> dict \<times> dict \<Rightarrow> exit + dict \<times> dict" where
  "validate_loop service_bios attributes [] (attrs_to_patch, attrs_bad) =
     Inr (attrs_to_patch, attrs_bad)"
| "validate_loop service_bios attributes ((attr_name, attr_value) # rest)
       (attrs_to_patch, attrs_bad) =
     (case raise (py_getitem service_bios ''Attributes'') of
        Inl e \<Rightarrow> Inl e
      | Inr cur \<Rightarrow>
     (case raise (py_contains attr_name cur) of
        Inl e \<Rightarrow> Inl e
      | Inr present \<Rightarrow>
          if \<not> present then
            (case raise (dict_del attr_name attrs_to_patch) of
               Inl e \<Rightarrow> Inl e
             | Inr p \<Rightarrow>
                 validate_loop service_bios attributes rest
                   (p, dict_update attr_name attr_value attrs_bad))
          else
            (case raise (py_getitem cur attr_name) of
               Inl e \<Rightarrow> Inl e
             | Inr current \<Rightarrow>
            (case raise (py_getitem (PDict attributes) attr_name) of
               Inl e \<Rightarrow> Inl e
             | Inr desired \<Rightarrow>
                 if py_eq current desired then
                   (case raise (dict_del attr_name attrs_to_patch) of
                      Inl e \<Rightarrow> Inl e
                    | Inr p \<Rightarrow>
                        validate_loop service_bios attributes rest (p, attrs_bad))
                 else validate_loop service_bios attributes rest
                        (attrs_to_patch, attrs_bad)))))"

definition validate_input_attributes :: "pyval \<Rightarrow> dict \<Rightarrow> exit + unit" where
  "validate_input_attributes service_bios attributes =
     (case validate_loop service_bios attributes attributes (attributes, []) of
        Inl e \<Rightarrow> Inl e
      | Inr (attrs_to_patch, attrs_bad) \<Rightarrow>
          if attrs_bad \<noteq> [] then
            Inl (FailJson [Lit ''Incorrect attributes: '', Str (PDict attrs_bad)])
          else if attrs_to_patch = [] then
            Inl (ExitJson (PBool False) [Lit ''Service BIOS attributes already set''])
          else Inr ())"

definition get_service_bios_attributes ::
  "world \<Rightarrow> pyval \<Rightarrow> event list \<Rightarrow> (exit + string \<times> pyval) \<times> event list" where
  "get_service_bios_attributes w bios_uri log =
     (case raise (py_add_str bios_uri ''service/settings/'') of
        Inl e \<Rightarrow> (Inl e, log)
      | Inr service_uri \<Rightarrow>
          let response = client_get w log service_uri;
              log1 = log @ [Get service_uri]
          in
     (case (if status response = 404 then
              (case raise (py_add_str bios_uri ''oem/hpe/service/settings/'') of
                 Inl e \<Rightarrow> Inl e
               | Inr service_uri2 \<Rightarrow>
                   Inr (service_uri2, client_get w log1 service_uri2,
                        log1 @ [Get service_uri2]))
            else Inr (service_uri, response, log1)) of
        Inl e \<Rightarrow> (Inl e, log1)
      | Inr (service_uri, response, log2) \<Rightarrow>
          if status response \<noteq> 200 then
            (Inl (error_msg ''GET'' service_uri (status response) (body_text response)),
             log2)
          else
            (case json_loads w (body_text response) of
               None \<Rightarrow> (Inl (Raised JSONDecodeError), log2)
             | Some server_service_bios \<Rightarrow>
                 (Inr (service_uri, server_service_bios), log2))))"

text \<open>
  \<^verbatim>\<open>server_details["Bios"]["@odata.id"]\<close>, the two subscripts in turn.
\<close>

definition bios_link :: "pyval \<Rightarrow> exit + pyval" where
  "bios_link server_details =
     (case raise (py_getitem server_details ''Bios'') of
        Inl e \<Rightarrow> Inl e
      | Inr b \<Rightarrow> raise (py_getitem b ''@odata.id''))"

definition set_service_bios_attributes ::
  "world \<Rightarrow> dict \<Rightarrow> event list \<Rightarrow> (exit + unit) \<times> event list" where
  "set_service_bios_attributes w service_attributes log =
     (let uri = base_uri @ system_uri;
          server_data = client_get w log uri;
          log1 = log @ [Get uri]
      in if status server_data \<noteq> 200 then
           (Inl (error_msg ''GET'' uri (status server_data) (body_text server_data)), log1)
         else
      (case json_loads w (body_text server_data) of
         None \<Rightarrow> (Inl (Raised JSONDecodeError), log1)
       | Some server_details \<Rightarrow>
      (case raise (py_contains ''Bios'' server_details) of
         Inl e \<Rightarrow> (Inl e, log1)
       | Inr has_bios \<Rightarrow>
           if \<not> has_bios then
             (Inl (FailJson [Lit ''Getting BIOS URI Failed, Key 'Bios' not found in '',
                             Str (PStr uri), Lit '' response: '', Str server_details]),
              log1)
           else
      (case bios_link server_details of
         Inl e \<Rightarrow> (Inl e, log1)
       | Inr bios_uri \<Rightarrow>
      (case get_service_bios_attributes w bios_uri log1 of
         (Inl e, log2) \<Rightarrow> (Inl e, log2)
       | (Inr (service_uri, server_service_bios), log2) \<Rightarrow>
      (case validate_input_attributes server_service_bios service_attributes of
         Inl e \<Rightarrow> (Inl e, log2)
       | Inr _ \<Rightarrow>
           let body = PDict [(''Attributes'', PDict service_attributes)];
               response = client_patch w log2 service_uri body;
               log3 = log2 @ [Patch service_uri body]
           in if status response \<noteq> 200 then
                (Inl (FailJson
                        [Lit ''Applying Service BIOS attributes Failed, status: '',
                         Str (PInt (status response)), Lit '', response: '',
                         Str (PStr (body_text response)), Lit '', API: '',
                         Str (PStr service_uri)]), log3)
              else (Inr (), log3)))))))"

text \<open>
  \<^verbatim>\<open>main\<close> of the BIOS module never returns: it ends in \<^verbatim>\<open>exit_json\<close>,
  \<^verbatim>\<open>fail_json\<close> or an exception. The result is how it ended and what it asked of
  the client.
\<close>

definition main_set_service_bios_attributes :: "world \<Rightarrow> dict \<Rightarrow> exit \<times> event list" where
  "main_set_service_bios_attributes w service_attributes =
     (if \<not> HAS_REDFISH w then (FailJson [MissingRequiredLib ''redfish''], [])
      else
        (case login_raises w of
           Some e \<Rightarrow> (Raised e, [])
         | None \<Rightarrow>
             (case set_service_bios_attributes w service_attributes [Login] of
                (Inl e, log) \<Rightarrow> (e, log)
              | (Inr _, log) \<Rightarrow>
                  (ExitJson (PBool True)
                     [Lit ''Service BIOS settings applied. System Reset required.''],
                   log @ [Logout]))))"

section \<open>The Manager configuration module\<close>

definition CATEGORY_COMMANDS_ALL :: "(string \<times> string list) list" where
  "CATEGORY_COMMANDS_ALL =
     [(''Manager'', [''SetTimeZone'', ''SetDNSserver'', ''SetDomainName'',
                     ''SetNTPServers'', ''SetWINSReg''])]"

text \<open>
  \<^verbatim>\<open>iLORedfishUtils\<close> is imported from another collection. Its methods are taken as
  given: each acts on the controller (a state of type \<open>'c\<close>) and returns a result
  dict. The arguments of the module are the validated \<^verbatim>\<open>module.params\<close>.
\<close>

record 'c rf_utils =
  find_managers_resource :: "'c \<Rightarrow> dict \<times> 'c"
  set_time_zone :: "dict \<Rightarrow> 'c \<Rightarrow> dict \<times> 'c"
  set_dns_server :: "dict \<Rightarrow> 'c \<Rightarrow> dict \<times> 'c"
  set_domain_name :: "dict \<Rightarrow> 'c \<Rightarrow> dict \<times> 'c"
  set_ntp_server :: "dict \<Rightarrow> 'c \<Rightarrow> dict \<times> 'c"
  set_wins_registration :: "dict \<Rightarrow> 'c \<Rightarrow> dict \<times> 'c"

record params =
  category :: string
  command :: "string list"
  attribute_name :: pyval
  attribute_value :: pyval

text \<open>The calls a run makes on \<^verbatim>\<open>rf_utils\<close>, in order.\<close>

datatype call =
    FindManagersResource
  | Dispatch string

definition apostrophe :: string where
  "apostrophe = [CHR 0x27]"

definition dispatch :: "'c rf_utils \<Rightarrow> (string \<times> (dict \<Rightarrow> 'c \<Rightarrow> dict \<times> 'c)) list" where
  "dispatch rf =
     [(''SetTimeZone'', set_time_zone rf),
      (''SetDNSserver'', set_dns_server rf),
      (''SetDomainName'', set_domain_name rf),
      (''SetNTPServers'', set_ntp_server rf),
      (''SetWINSReg'', set_wins_registration rf)]"

text \<open>
  The list comprehension \<^verbatim>\<open>[cmd for cmd in command_list if cmd not in
  CATEGORY_COMMANDS_ALL[category]]\<close>; the subscript is evaluated once per element.
\<close>

fun offending_commands :: "string \<Rightarrow> string list \<Rightarrow> pyexc + string list" where
  "offending_commands cat [] = Inr []"
| "offending_commands cat (cmd # rest) =
     (case map_of CATEGORY_COMMANDS_ALL cat of
        None \<Rightarrow> Inl (KeyError cat)
      | Some allowed \<Rightarrow>
          (case offending_commands cat rest of
             Inl e \<Rightarrow> Inl e
           | Inr offending \<Rightarrow>
               Inr (if cmd \<notin> set allowed then cmd # offending else offending)))"

text \<open>
  The loop \<^verbatim>\<open>for command in command_list: result = dispatch[command](mgr_attributes)\<close>.
\<close>

fun run_commands ::
  "'c rf_utils \<Rightarrow> dict \<Rightarrow> string list \<Rightarrow> dict \<times> call list \<times> 'c \<Rightarrow>
   (exit + dict) \<times> call list \<times> 'c" where
  "run_commands rf mgr_attributes [] (result, trace, c) = (Inr result, trace, c)"
| "run_commands rf mgr_attributes (cmd # rest) (result, trace, c) =
     (case map_of (dispatch rf) cmd of
        None \<Rightarrow> (Inl (Raised (KeyError cmd)), trace, c)
      | Some routine \<Rightarrow>
          (case routine mgr_attributes c of
             (result', c') \<Rightarrow>
               run_commands rf mgr_attributes rest (result', trace @ [Dispatch cmd], c')))"

text \<open>The closing \<^verbatim>\<open>if result['ret']: ... else: ...\<close> of \<^verbatim>\<open>main\<close>.\<close>

definition report :: "dict \<Rightarrow> exit" where
  "report result =
     (case raise (py_getitem (PDict result) ''ret'') of
        Inl e \<Rightarrow> e
      | Inr ret \<Rightarrow>
          if py_truthy ret then
            ExitJson (dict_get result ''changed'') [ToNative (dict_get result ''msg'')]
          else
            (case raise (py_getitem (PDict result) ''msg'') of
               Inl e \<Rightarrow> e
             | Inr m \<Rightarrow> FailJson [ToNative m]))"

definition main_ilo_redfish_config ::
  "'c rf_utils \<Rightarrow> params \<Rightarrow> 'c \<Rightarrow> exit \<times> call list \<times> 'c" where
  "main_ilo_redfish_config rf p c =
     (let mgr_attributes = [(''mgr_attr_name'', attribute_name p),
                            (''mgr_attr_value'', attribute_value p)]
      in
     (case raise (offending_commands (category p) (command p)) of
        Inl e \<Rightarrow> (e, [], c)
      | Inr offending \<Rightarrow>
          if offending \<noteq> [] then
            (case map_of CATEGORY_COMMANDS_ALL (category p) of
               None \<Rightarrow> (Raised (KeyError (category p)), [], c)
             | Some allowed \<Rightarrow>
                 (FailJson [Lit (''Invalid Command(s): '' @ apostrophe),
                            Str (PList (map PStr offending)),
                            Lit (apostrophe @ ''. Allowed Commands = ''),
                            Str (PList (map PStr allowed))], [], c))
          else if category p = ''Manager'' then
            (case find_managers_resource rf c of
               (resource, c1) \<Rightarrow>
            (case raise (py_getitem (PDict resource) ''ret'') of
               Inl e \<Rightarrow> (e, [FindManagersResource], c1)
             | Inr ret \<Rightarrow>
                 if \<not> py_truthy ret then
                   (case raise (py_getitem (PDict resource) ''msg'') of
                      Inl e \<Rightarrow> (e, [FindManagersResource], c1)
                    | Inr m \<Rightarrow> (FailJson [ToNative m], [FindManagersResource], c1))
                 else
                   (case run_commands rf mgr_attributes (command p)
                           ([], [FindManagersResource], c1) of
                      (Inl e, trace, c2) \<Rightarrow> (e, trace, c2)
                    | (Inr result, trace, c2) \<Rightarrow> (report result, trace, c2))))
          else (report [], [], c)))"

section \<open>Vocabulary of the specification\<close>

text \<open>
  The specification's Diff Payload is the part of the Desired Change whose value differs
  from the controller's current value; its bad attributes are the requested names the
  controller does not report. Both are stated here over the current Attribute Set
  \<open>cur\<close>, to be compared with what the validator computes.
\<close>

definition differs :: "dict \<Rightarrow> string \<times> pyval \<Rightarrow> bool" where
  "differs cur kv = (case map_of cur (fst kv) of None \<Rightarrow> False | Some c \<Rightarrow> \<not> py_eq c (snd kv))"

definition unknown :: "dict \<Rightarrow> string \<times> pyval \<Rightarrow> bool" where
  "unknown cur kv = (fst kv \<notin> fst ` set cur)"

section \<open>Example controllers\<close>

text \<open>
  A controller that reports two service attributes, both \<^verbatim>\<open>Disabled\<close>, under the
  standard service-settings path, and accepts every PATCH.
\<close>

definition example_world :: world where
  \<open>example_world =
     \<lparr>HAS_REDFISH = True,
      login_raises = None,
      client_get = (\<lambda>log uri.
        if uri = ''/redfish/v1/systems/1/'' then
          \<lparr>status = 200,
           body_text = ''{"Bios": {"@odata.id": "/redfish/v1/systems/1/bios/"}}''\<rparr>
        else if uri = ''/redfish/v1/systems/1/bios/service/settings/'' then
          \<lparr>status = 200,
           body_text = ''{"Attributes": {"ProcMonitorMwait": "Disabled", "MemPreFailureNotification": "Disabled"}}''\<rparr>
        else \<lparr>status = 404, body_text = ''''\<rparr>),
      client_patch = (\<lambda>log uri body. \<lparr>status = 200, body_text = ''''\<rparr>),
      json_loads = (\<lambda>t.
        if t = ''{"Bios": {"@odata.id": "/redfish/v1/systems/1/bios/"}}'' then
          Some (PDict [(''Bios'', PDict [(''@odata.id'', PStr ''/redfish/v1/systems/1/bios/'')])])
        else if t = ''{"Attributes": {"ProcMonitorMwait": "Disabled", "MemPreFailureNotification": "Disabled"}}'' then
          Some (PDict [(''Attributes'',
                  PDict [(''ProcMonitorMwait'', PStr ''Disabled''),
                         (''MemPreFailureNotification'', PStr ''Disabled'')])])
        else None)\<rparr>\<close>


text \<open>
  A controller interface whose time-zone routine reports failure and whose other
  routines succeed; the controller state is the list of attributes written so far.
\<close>

definition example_rf_utils :: "string list rf_utils" where
  "example_rf_utils =
     \<lparr>find_managers_resource = (\<lambda>c. ([(''ret'', PBool True)], c)),
      set_time_zone = (\<lambda>attrs c.
        ([(''ret'', PBool False), (''msg'', PStr ''Provided time zone is not supported'')], c)),
      set_dns_server = (\<lambda>attrs c.
        ([(''ret'', PBool True), (''changed'', PBool True),
          (''msg'', PStr ''Modified DNSServers'')], c @ [''DNSServers''])),
      set_domain_name = (\<lambda>attrs c.
        ([(''ret'', PBool True), (''changed'', PBool True),
          (''msg'', PStr ''Modified DomainName'')], c @ [''DomainName''])),
      set_ntp_server = (\<lambda>attrs c.
        ([(''ret'', PBool True), (''changed'', PBool True),
          (''msg'', PStr ''Modified StaticNTPServers'')], c @ [''StaticNTPServers''])),
      set_wins_registration = (\<lambda>attrs c.
        ([(''ret'', PBool True), (''changed'', PBool True),
          (''msg'', PStr ''Modified WINSRegistration'')], c @ [''WINSRegistration'']))\<rparr>"

definition example_params :: "string list \<Rightarrow> params" where
  "example_params cmds =
     \<lparr>category = ''Manager'', command = cmds,
      attribute_name = PStr ''TimeZone'', attribute_value = PStr ''Chennai''\<rparr>"

section \<open>The validator's loop\<close>

lemma filter_other_keys:
  "k \<notin> fst ` set xs \<Longrightarrow> filter (\<lambda>kv. fst kv \<noteq> k) xs = xs"
  by (induction xs) auto

lemma map_of_middle:
  "k \<notin> fst ` set xs \<Longrightarrow> map_of (xs @ (k, v) # ys) k = Some v"
  by (induction xs) auto

lemma dict_del_head:
  assumes "k \<notin> fst ` set xs" "k \<notin> fst ` set ys"
  shows "dict_del k (xs @ (k, v) # ys) = Inr (xs @ ys)"
  using assms by (simp add: dict_del_def filter_other_keys)

lemma dict_update_fresh:
  "k \<notin> fst ` set d \<Longrightarrow> dict_update k v d = d @ [(k, v)]"
  by (simp add: dict_update_def)

lemma map_of_in_keys:
  "k \<in> fst ` set cur \<Longrightarrow> \<exists>c. map_of cur k = Some c"
  by (metis domD dom_map_of_conv_image_fst)

lemma validate_loop_char:
  assumes sb: "py_getitem service_bios ''Attributes'' = Inr (PDict cur)"
    and d: "distinct (map fst attributes)"
    and split: "attributes = seen @ rest"
  shows "validate_loop service_bios attributes rest
           (filter (differs cur) seen @ rest, filter (unknown cur) seen)
         = Inr (filter (differs cur) attributes, filter (unknown cur) attributes)"
  using split
proof (induction rest arbitrary: seen)
  case Nil
  then show ?case by simp
next
  case (Cons kv rest)
  obtain k v where kv: "kv = (k, v)" by (cases kv)
  from Cons.prems d kv have fresh_seen: "k \<notin> fst ` set seen"
    and fresh_rest: "k \<notin> fst ` set rest" by auto
  have k1: "k \<notin> fst ` set (filter (differs cur) seen)"
    and k2: "k \<notin> fst ` set (filter (unknown cur) seen)" using fresh_seen by auto
  have lookup: "map_of attributes k = Some v"
    unfolding Cons.prems kv using fresh_seen by (rule map_of_middle)
  have next_split: "attributes = (seen @ [(k, v)]) @ rest"
    using Cons.prems kv by simp
  note IH = Cons.IH [OF next_split]
  have del: "dict_del k (filter (differs cur) seen @ (k, v) # rest)
               = Inr (filter (differs cur) seen @ rest)"
    using k1 fresh_rest by (rule dict_del_head)
  have pc: "py_contains k (PDict cur) = Inr (k \<in> fst ` set cur)" by simp
  show ?case
  proof (cases "k \<in> fst ` set cur")
    case False
    then have u: "unknown cur (k, v)" and nd: "\<not> differs cur (k, v)"
      by (simp_all add: unknown_def differs_def map_of_eq_None_iff [THEN iffD2])
    have "validate_loop service_bios attributes ((k, v) # rest)
            (filter (differs cur) seen @ (k, v) # rest, filter (unknown cur) seen)
          = validate_loop service_bios attributes rest
            (filter (differs cur) seen @ rest, filter (unknown cur) seen @ [(k, v)])"
      by (simp only: validate_loop.simps sb raise_def sum.case pc False if_True not_False_eq_True
            del dict_update_fresh [OF k2])
    also have "\<dots> = Inr (filter (differs cur) attributes, filter (unknown cur) attributes)"
      using IH u nd by simp
    finally show ?thesis by (simp only: kv)
  next
    case True
    then have "\<exists>c. map_of cur k = Some c" by (rule map_of_in_keys)
    then obtain c where c: "map_of cur k = Some c" ..
    have nu: "\<not> unknown cur (k, v)" using True by (simp add: unknown_def)
    have g1: "py_getitem (PDict cur) k = Inr c" by (simp add: c)
    have g2: "py_getitem (PDict attributes) k = Inr v" by (simp add: lookup)
    show ?thesis
    proof (cases "py_eq c v")
      case eq: True
      then have nd: "\<not> differs cur (k, v)" by (simp add: differs_def c)
      have "validate_loop service_bios attributes ((k, v) # rest)
              (filter (differs cur) seen @ (k, v) # rest, filter (unknown cur) seen)
            = validate_loop service_bios attributes rest
              (filter (differs cur) seen @ rest, filter (unknown cur) seen)"
        by (simp only: validate_loop.simps sb raise_def sum.case pc True if_True if_False
              not_True_eq_False g1 g2 eq del)
      also have "\<dots> = Inr (filter (differs cur) attributes, filter (unknown cur) attributes)"
        using IH nu nd by simp
      finally show ?thesis by (simp only: kv)
    next
      case neq: False
      then have dd: "differs cur (k, v)" by (simp add: differs_def c)
      have "validate_loop service_bios attributes ((k, v) # rest)
              (filter (differs cur) seen @ (k, v) # rest, filter (unknown cur) seen)
            = validate_loop service_bios attributes rest
              (filter (differs cur) seen @ (k, v) # rest, filter (unknown cur) seen)"
        by (simp only: validate_loop.simps sb raise_def sum.case pc True if_True if_False
              not_True_eq_False g1 g2 neq)
      also have "\<dots> = Inr (filter (differs cur) attributes, filter (unknown cur) attributes)"
        using IH nu dd by simp
      finally show ?thesis by (simp only: kv)
    qed
  qed
qed

lemma validate_loop_from_start:
  assumes "py_getitem service_bios ''Attributes'' = Inr (PDict cur)"
    and "distinct (map fst attributes)"
  shows "validate_loop service_bios attributes attributes (attributes, [])
         = Inr (filter (differs cur) attributes, filter (unknown cur) attributes)"
  using validate_loop_char [OF assms, of "[]" attributes] by simp

text \<open>
  Claim C8. For every current Attribute Set and every Desired Change mapping, the loop of
  the validator ends with a pending payload that is a subset of the Desired Change and
  holds no key whose current value equals the desired one.
\<close>

theorem diff_payload_subset_and_differs:
  assumes "py_getitem service_bios ''Attributes'' = Inr (PDict cur)"
    and "distinct (map fst attributes)"
  shows "\<exists>attrs_to_patch attrs_bad.
           validate_loop service_bios attributes attributes (attributes, [])
             = Inr (attrs_to_patch, attrs_bad) \<and>
           set attrs_to_patch \<subseteq> set attributes \<and>
           (\<forall>(k, v) \<in> set attrs_to_patch. \<forall>c. map_of cur k = Some c \<longrightarrow> \<not> py_eq c v)"
proof -
  have "set (filter (differs cur) attributes) \<subseteq> set attributes" by simp
  moreover have "\<forall>(k, v) \<in> set (filter (differs cur) attributes).
                   \<forall>c. map_of cur k = Some c \<longrightarrow> \<not> py_eq c v"
    by (auto simp: differs_def)
  ultimately show ?thesis
    using validate_loop_from_start [OF assms] by blast
qed

theorem diff_payload_subset_and_differs_witness:
  "\<exists>attrs_to_patch attrs_bad.
     validate_loop
       (PDict [(''Attributes'', PDict [(''ProcMonitorMwait'', PStr ''Disabled''),
                                       (''MemPreFailureNotification'', PStr ''Disabled'')])])
       [(''ProcMonitorMwait'', PStr ''Disabled''),
        (''MemPreFailureNotification'', PStr ''Enabled'')]
       [(''ProcMonitorMwait'', PStr ''Disabled''),
        (''MemPreFailureNotification'', PStr ''Enabled'')]
       ([(''ProcMonitorMwait'', PStr ''Disabled''),
         (''MemPreFailureNotification'', PStr ''Enabled'')], [])
       = Inr (attrs_to_patch, attrs_bad) \<and>
     set attrs_to_patch \<subseteq> {(''ProcMonitorMwait'', PStr ''Disabled''),
                              (''MemPreFailureNotification'', PStr ''Enabled'')} \<and>
     (\<forall>(k, v) \<in> set attrs_to_patch.
        \<forall>c. map_of [(''ProcMonitorMwait'', PStr ''Disabled''),
                      (''MemPreFailureNotification'', PStr ''Disabled'')] k = Some c
            \<longrightarrow> \<not> py_eq c v)"
  using diff_payload_subset_and_differs
    [of "PDict [(''Attributes'', PDict [(''ProcMonitorMwait'', PStr ''Disabled''),
                                       (''MemPreFailureNotification'', PStr ''Disabled'')])]"
        "[(''ProcMonitorMwait'', PStr ''Disabled''),
          (''MemPreFailureNotification'', PStr ''Disabled'')]"
        "[(''ProcMonitorMwait'', PStr ''Disabled''),
          (''MemPreFailureNotification'', PStr ''Enabled'')]"]
  by simp

text \<open>
  Claim C4. The validator fails with the incorrect-attributes message exactly when some
  requested key is absent from the current Attribute Set, and the message then holds
  every absent key, in the order of the request.
\<close>

theorem invalid_attribute_error_iff_absent_key:
  assumes "py_getitem service_bios ''Attributes'' = Inr (PDict cur)"
    and "distinct (map fst attributes)"
  shows "if \<exists>kv \<in> set attributes. fst kv \<notin> fst ` set cur
         then validate_input_attributes service_bios attributes
              = Inl (FailJson [Lit ''Incorrect attributes: '',
                       Str (PDict (filter (\<lambda>kv. fst kv \<notin> fst ` set cur) attributes))])
         else \<forall>msg. validate_input_attributes service_bios attributes \<noteq> Inl (FailJson msg)"
proof -
  have u: "filter (unknown cur) attributes = filter (\<lambda>kv. fst kv \<notin> fst ` set cur) attributes"
    by (simp add: unknown_def [abs_def])
  have e: "(filter (\<lambda>kv. fst kv \<notin> fst ` set cur) attributes \<noteq> [])
           = (\<exists>kv \<in> set attributes. fst kv \<notin> fst ` set cur)"
    by (simp add: filter_empty_conv)
  show ?thesis
    using e by (simp add: validate_input_attributes_def validate_loop_from_start [OF assms] u)
qed
theorem invalid_attribute_error_iff_absent_key_witness:
  "validate_input_attributes
     (PDict [(''Attributes'', PDict [(''ProcMonitorMwait'', PStr ''Disabled''),
                                     (''MemPreFailureNotification'', PStr ''Disabled'')])])
     [(''NoSuchAttribute'', PStr ''Enabled''),
      (''ProcMonitorMwait'', PStr ''Enabled''),
      (''AlsoMissing'', PInt 1)]
   = Inl (FailJson [Lit ''Incorrect attributes: '',
                    Str (PDict [(''NoSuchAttribute'', PStr ''Enabled''),
                                (''AlsoMissing'', PInt 1)])]) \<and>
   (\<forall>msg. validate_input_attributes
            (PDict [(''Attributes'', PDict [(''ProcMonitorMwait'', PStr ''Disabled''),
                                            (''MemPreFailureNotification'', PStr ''Disabled'')])])
            [(''ProcMonitorMwait'', PStr ''Enabled'')]
          \<noteq> Inl (FailJson msg))"
  using invalid_attribute_error_iff_absent_key
          [of "PDict [(''Attributes'', PDict [(''ProcMonitorMwait'', PStr ''Disabled''),
                                             (''MemPreFailureNotification'', PStr ''Disabled'')])]"
              "[(''ProcMonitorMwait'', PStr ''Disabled''),
                (''MemPreFailureNotification'', PStr ''Disabled'')]"
              "[(''NoSuchAttribute'', PStr ''Enabled''),
                (''ProcMonitorMwait'', PStr ''Enabled''),
                (''AlsoMissing'', PInt 1)]"]
        invalid_attribute_error_iff_absent_key
          [of "PDict [(''Attributes'', PDict [(''ProcMonitorMwait'', PStr ''Disabled''),
                                             (''MemPreFailureNotification'', PStr ''Disabled'')])]"
              "[(''ProcMonitorMwait'', PStr ''Disabled''),
                (''MemPreFailureNotification'', PStr ''Disabled'')]"
              "[(''ProcMonitorMwait'', PStr ''Enabled'')]"]
  by simp

section \<open>The attribute reader\<close>

lemma reader_log:
  "\<exists>us. snd (get_service_bios_attributes w bios_uri log) = log @ map Get us"
proof (cases bios_uri)
  case (PStr b)
  show ?thesis
  proof (cases "status (client_get w log (b @ ''service/settings/'')) = 404")
    case True
    have "snd (get_service_bios_attributes w bios_uri log)
          = log @ map Get [b @ ''service/settings/'', b @ ''oem/hpe/service/settings/'']"
      using True
      by (simp add: get_service_bios_attributes_def PStr raise_def Let_def split: option.splits)
    then show ?thesis by blast
  next
    case False
    have "snd (get_service_bios_attributes w bios_uri log) = log @ map Get [b @ ''service/settings/'']"
      using False
      by (simp add: get_service_bios_attributes_def PStr raise_def Let_def split: option.splits)
    then show ?thesis by blast
  qed
qed (simp_all add: get_service_bios_attributes_def raise_def exI [of _ "[]"])


lemma reader_log_from:
  assumes "get_service_bios_attributes w bios_uri (log @ [Get u]) = (r, l)"
  shows "\<exists>us. l = log @ map Get us"
proof -
  from reader_log [of w bios_uri "log @ [Get u]"] assms
  obtain us where "l = (log @ [Get u]) @ map Get us" by auto
  then have "l = log @ map Get (u # us)" by simp
  then show ?thesis by blast
qed


section \<open>How the validator and the reader end a run\<close>

lemma raise_Inl: "raise r = Inl e \<Longrightarrow> \<exists>x. e = Raised x"
  by (cases r) (auto simp: raise_def)

lemma validate_loop_Inl:
  "validate_loop service_bios attributes rest st = Inl e \<Longrightarrow> \<exists>x. e = Raised x"
proof (induction rest arbitrary: st)
  case Nil
  then show ?case by (cases st) simp
next
  case (Cons kv rest)
  obtain k v where kv: "kv = (k, v)" by (cases kv)
  obtain p b where st: "st = (p, b)" by (cases st)
  from Cons.prems show ?case
    unfolding kv st validate_loop.simps
    by (auto split: sum.splits if_splits dest: raise_Inl Cons.IH)
qed

lemma validate_exit:
  assumes "validate_input_attributes service_bios attributes = Inl e"
  shows "e \<noteq> ExitJson (PBool True) m"
proof (cases "validate_loop service_bios attributes attributes (attributes, [])")
  case (Inl x)
  with assms have "e = x" by (simp add: validate_input_attributes_def)
  with validate_loop_Inl [OF Inl] show ?thesis by auto
next
  case (Inr pb)
  with assms show ?thesis
    by (cases pb) (auto simp: validate_input_attributes_def split: if_splits)
qed

lemma reader_exit:
  assumes "get_service_bios_attributes w bios_uri log = (Inl e, l)"
  shows "e \<noteq> ExitJson c m"
proof (cases bios_uri)
  case (PStr b)
  from assms show ?thesis
    unfolding PStr get_service_bios_attributes_def
    by (auto simp: raise_def Let_def error_msg_def split: option.splits if_splits)
qed (use assms in \<open>auto simp: get_service_bios_attributes_def raise_def\<close>)

section \<open>The run of the BIOS module\<close>

lemma set_no_logout:
  assumes "Logout \<in> set (snd (set_service_bios_attributes w a log))"
  shows "Logout \<in> set log"
  using assms unfolding set_service_bios_attributes_def Let_def
  by (auto split: sum.splits option.splits prod.splits if_splits dest!: reader_log_from)

lemma set_exit_kind:
  assumes "set_service_bios_attributes w a log = (Inl e, l)"
  shows "e \<noteq> ExitJson (PBool True) m"
  using assms unfolding set_service_bios_attributes_def Let_def
  by (auto simp: error_msg_def bios_link_def
           split: sum.splits option.splits prod.splits if_splits
           dest: raise_Inl reader_exit validate_exit)

lemma set_patch_body:
  assumes "Patch u body \<in> set (snd (set_service_bios_attributes w a log))"
  shows "Patch u body \<in> set log \<or> body = PDict [(''Attributes'', PDict a)]"
  using assms unfolding set_service_bios_attributes_def Let_def
  by (auto split: sum.splits option.splits prod.splits if_splits dest!: reader_log_from)

lemmas run_defs =
  main_set_service_bios_attributes_def set_service_bios_attributes_def example_world_def
  base_uri_def system_uri_def raise_def bios_link_def get_service_bios_attributes_def
  validate_input_attributes_def dict_del_def dict_update_def Let_def

text \<open>
  Claim C1. The body of the PATCH is built from \<^verbatim>\<open>service_attributes\<close>, not from the
  pending payload of the validator. On a controller that reports \<^verbatim>\<open>ProcMonitorMwait\<close> as
  \<^verbatim>\<open>Disabled\<close>, a request for \<^verbatim>\<open>ProcMonitorMwait = Disabled\<close> and
  \<^verbatim>\<open>MemPreFailureNotification = Enabled\<close> sends both attributes, the unchanged one
  included.
\<close>

theorem patch_sends_unchanged_attribute:
  "main_set_service_bios_attributes example_world
     [(''ProcMonitorMwait'', PStr ''Disabled''),
      (''MemPreFailureNotification'', PStr ''Enabled'')] =
   (ExitJson (PBool True) [Lit ''Service BIOS settings applied. System Reset required.''],
    [Login,
     Get ''/redfish/v1/systems/1/'',
     Get ''/redfish/v1/systems/1/bios/service/settings/'',
     Patch ''/redfish/v1/systems/1/bios/service/settings/''
       (PDict [(''Attributes'',
                PDict [(''ProcMonitorMwait'', PStr ''Disabled''),
                       (''MemPreFailureNotification'', PStr ''Enabled'')])]),
     Logout])"
  by (simp add: run_defs)

lemma patch_body_is_whole_request:
  assumes "Patch u body \<in> set (snd (main_set_service_bios_attributes w service_attributes))"
  shows "body = PDict [(''Attributes'', PDict service_attributes)]"
proof -
  from assms have "Patch u body \<in> set (snd (set_service_bios_attributes w service_attributes [Login]))"
    by (auto simp: main_set_service_bios_attributes_def
             split: if_splits option.splits prod.splits sum.splits)
  from set_patch_body [OF this] show ?thesis by simp
qed

text \<open>
  Where a run reaches \<^verbatim>\<open>logout\<close>: the call stands after
  \<^verbatim>\<open>set_service_bios_attributes\<close> in \<^verbatim>\<open>main\<close>, so it is reached exactly by the runs
  in which that function returns.
\<close>

lemma logout_reached_iff_applied:
  "Logout \<in> set (snd (main_set_service_bios_attributes w service_attributes)) \<longleftrightarrow>
   fst (main_set_service_bios_attributes w service_attributes)
     = ExitJson (PBool True) [Lit ''Service BIOS settings applied. System Reset required.'']"
proof (cases "HAS_REDFISH w \<and> login_raises w = None")
  case False
  then show ?thesis
    by (auto simp: main_set_service_bios_attributes_def split: option.splits)
next
  case True
  obtain r l where run: "set_service_bios_attributes w service_attributes [Login] = (r, l)"
    by (cases "set_service_bios_attributes w service_attributes [Login]")
  have nl: "Logout \<notin> set l"
    using set_no_logout [of w service_attributes "[Login]"] run by auto
  show ?thesis
  proof (cases r)
    case (Inl e)
    with True run nl set_exit_kind [of w service_attributes "[Login]" e l] show ?thesis
      by (simp add: main_set_service_bios_attributes_def)
  next
    case (Inr u)
    with True run show ?thesis
      by (simp add: main_set_service_bios_attributes_def)
  qed
qed

text \<open>
  Claim C2. Logout is to be executed on every exit path. The code does not do so: on the
  example controller, a request that names an unknown attribute ends in \<^verbatim>\<open>fail_json\<close>
  and a request for the values already set ends in \<^verbatim>\<open>exit_json\<close>, both after the
  login and both without a logout; \<^verbatim>\<open>fail_json\<close> and \<^verbatim>\<open>exit_json\<close> end the
  process before the call of \<^verbatim>\<open>logout\<close> in \<^verbatim>\<open>main\<close> is reached.
\<close>

theorem logout_skipped_on_early_exit:
  "main_set_service_bios_attributes example_world [(''NoSuchAttribute'', PStr ''Enabled'')]
     = (FailJson [Lit ''Incorrect attributes: '',
                  Str (PDict [(''NoSuchAttribute'', PStr ''Enabled'')])],
        [Login,
         Get ''/redfish/v1/systems/1/'',
         Get ''/redfish/v1/systems/1/bios/service/settings/'']) \<and>
   main_set_service_bios_attributes example_world [(''ProcMonitorMwait'', PStr ''Disabled'')]
     = (ExitJson (PBool False) [Lit ''Service BIOS attributes already set''],
        [Login,
         Get ''/redfish/v1/systems/1/'',
         Get ''/redfish/v1/systems/1/bios/service/settings/'']) \<and>
   Logout \<notin> set (snd (main_set_service_bios_attributes example_world
                          [(''NoSuchAttribute'', PStr ''Enabled'')])) \<and>
   Logout \<notin> set (snd (main_set_service_bios_attributes example_world
                          [(''ProcMonitorMwait'', PStr ''Disabled'')]))"
  by (simp add: run_defs)

lemma validate_already_set:
  assumes sb: "py_getitem service_bios ''Attributes'' = Inr (PDict cur)"
    and d: "distinct (map fst attributes)"
    and same: "\<forall>(k, v) \<in> set attributes. \<exists>c. map_of cur k = Some c \<and> py_eq c v"
  shows "validate_input_attributes service_bios attributes
         = Inl (ExitJson (PBool False) [Lit ''Service BIOS attributes already set''])"
proof -
  have "filter (differs cur) attributes = []"
    using same by (auto simp: filter_empty_conv differs_def)
  moreover have "filter (unknown cur) attributes = []"
  proof -
    have "fst kv \<in> fst ` set cur" if "kv \<in> set attributes" for kv
    proof -
      from same that obtain c where "map_of cur (fst kv) = Some c" by (cases kv) auto
      then have "(fst kv, c) \<in> set cur" by (rule map_of_SomeD)
      then show ?thesis by (rule image_eqI [rotated]) simp
    qed
    then show ?thesis by (simp add: filter_empty_conv unknown_def)
  qed
  ultimately show ?thesis
    by (simp add: validate_input_attributes_def validate_loop_from_start [OF sb d])
qed

text \<open>
  Claim C5. When the Attribute Set was read and every requested attribute is in it with
  a value equal to the requested one, the module ends with \<^verbatim>\<open>changed=False\<close> and the
  message that the attributes are already set, and no PATCH was requested.
\<close>

theorem already_set_ends_without_write:
  assumes "HAS_REDFISH w" and "login_raises w = None"
    and "status (client_get w [Login] (base_uri @ system_uri)) = 200"
    and "json_loads w (body_text (client_get w [Login] (base_uri @ system_uri)))
           = Some server_details"
    and "py_contains ''Bios'' server_details = Inr True"
    and "bios_link server_details = Inr bios_uri"
    and rd: "get_service_bios_attributes w bios_uri [Login, Get (base_uri @ system_uri)]
           = (Inr (service_uri, server_service_bios), log)"
    and "py_getitem server_service_bios ''Attributes'' = Inr (PDict cur)"
    and "distinct (map fst service_attributes)"
    and "\<forall>(k, v) \<in> set service_attributes. \<exists>c. map_of cur k = Some c \<and> py_eq c v"
  shows "main_set_service_bios_attributes w service_attributes
           = (ExitJson (PBool False) [Lit ''Service BIOS attributes already set''], log) \<and>
         (\<forall>u body. Patch u body \<notin> set log)"
proof -
  have v: "validate_input_attributes server_service_bios service_attributes
           = Inl (ExitJson (PBool False) [Lit ''Service BIOS attributes already set''])"
    using assms(8-10) by (rule validate_already_set)
  have "set_service_bios_attributes w service_attributes [Login]
          = (Inl (ExitJson (PBool False) [Lit ''Service BIOS attributes already set'']), log)"
    using assms(3-7) by (simp add: set_service_bios_attributes_def Let_def raise_def v)
  then have m: "main_set_service_bios_attributes w service_attributes
           = (ExitJson (PBool False) [Lit ''Service BIOS attributes already set''], log)"
    using assms(1,2) by (simp add: main_set_service_bios_attributes_def)
  from reader_log_from [of w bios_uri "[Login]" "base_uri @ system_uri"] rd
  obtain us where "log = [Login] @ map Get us" by auto
  then have "\<forall>u body. Patch u body \<notin> set log" by auto
  with m show ?thesis by simp
qed

theorem already_set_ends_without_write_witness:
  "main_set_service_bios_attributes example_world
     [(''MemPreFailureNotification'', PStr ''Disabled''),
      (''ProcMonitorMwait'', PStr ''Disabled'')]
   = (ExitJson (PBool False) [Lit ''Service BIOS attributes already set''],
      [Login, Get ''/redfish/v1/systems/1/'',
       Get ''/redfish/v1/systems/1/bios/service/settings/'']) \<and>
   (\<forall>u body. Patch u body \<notin> set [Login, Get ''/redfish/v1/systems/1/'',
                                  Get ''/redfish/v1/systems/1/bios/service/settings/''])"
proof -
  let ?details = "PDict [(''Bios'', PDict [(''@odata.id'', PStr ''/redfish/v1/systems/1/bios/'')])]"
  let ?cur = "[(''ProcMonitorMwait'', PStr ''Disabled''),
               (''MemPreFailureNotification'', PStr ''Disabled'')]"
  let ?wanted = "[(''MemPreFailureNotification'', PStr ''Disabled''),
                  (''ProcMonitorMwait'', PStr ''Disabled'')]"
  have h1: "HAS_REDFISH example_world" and h2: "login_raises example_world = None"
    by (simp_all add: example_world_def)
  have h3: "status (client_get example_world [Login] (base_uri @ system_uri)) = 200"
    by (simp add: example_world_def base_uri_def system_uri_def)
  have h4: "json_loads example_world
              (body_text (client_get example_world [Login] (base_uri @ system_uri)))
            = Some ?details"
    by (simp add: example_world_def base_uri_def system_uri_def)
  have h5: "py_contains ''Bios'' ?details = Inr True" by simp
  have h6: "bios_link ?details = Inr (PStr ''/redfish/v1/systems/1/bios/'')"
    by (simp add: bios_link_def raise_def)
  have h7: "get_service_bios_attributes example_world (PStr ''/redfish/v1/systems/1/bios/'')
              [Login, Get (base_uri @ system_uri)]
            = (Inr (''/redfish/v1/systems/1/bios/service/settings/'',
                    PDict [(''Attributes'', PDict ?cur)]),
               [Login, Get ''/redfish/v1/systems/1/'',
                Get ''/redfish/v1/systems/1/bios/service/settings/''])"
    by (simp add: get_service_bios_attributes_def example_world_def base_uri_def system_uri_def
          raise_def Let_def)
  have h8: "py_getitem (PDict [(''Attributes'', PDict ?cur)]) ''Attributes'' = Inr (PDict ?cur)"
    by simp
  have h9: "distinct (map fst ?wanted)" by simp
  have h10: "\<forall>(k, v) \<in> set ?wanted. \<exists>c. map_of ?cur k = Some c \<and> py_eq c v" by simp
  show ?thesis
    by (rule already_set_ends_without_write [OF h1 h2 h3 h4 h5 h6 h7 h8 h9 h10])
qed

section \<open>The run of the Manager module\<close>

lemma offending_commands_filter:
  assumes "map_of CATEGORY_COMMANDS_ALL cat = Some allowed"
  shows "offending_commands cat cmds = Inr (filter (\<lambda>cmd. cmd \<notin> set allowed) cmds)"
  using assms by (induction cmds) simp_all

lemma dispatch_allowed:
  assumes "map_of CATEGORY_COMMANDS_ALL ''Manager'' = Some allowed" and "cmd \<in> set allowed"
  shows "\<exists>routine. map_of (dispatch rf) cmd = Some routine"
  using assms by (auto simp: CATEGORY_COMMANDS_ALL_def dispatch_def)

lemma run_commands_all:
  assumes "map_of CATEGORY_COMMANDS_ALL ''Manager'' = Some allowed"
    and "set cmds \<subseteq> set allowed"
  shows "\<exists>result c'. run_commands rf mgr_attributes cmds (r0, trace, c)
           = (Inr result, trace @ map Dispatch cmds, c')"
  using assms(2)
proof (induction cmds arbitrary: r0 trace c)
  case Nil
  then show ?case by simp
next
  case (Cons cmd cmds)
  from Cons.prems have "cmd \<in> set allowed" and rest: "set cmds \<subseteq> set allowed" by auto
  with assms(1) obtain routine where routine: "map_of (dispatch rf) cmd = Some routine"
    using dispatch_allowed by blast
  obtain r1 c1 where step: "routine mgr_attributes c = (r1, c1)"
    by (cases "routine mgr_attributes c")
  from Cons.IH [OF rest, of r1 "trace @ [Dispatch cmd]" c1]
  show ?case by (simp add: routine step)
qed


lemmas manager_run_defs =
  main_ilo_redfish_config_def example_rf_utils_def example_params_def
  CATEGORY_COMMANDS_ALL_def dispatch_def report_def raise_def dict_get_def apostrophe_def Let_def

text \<open>
  Claim C7. When the command list holds a name outside the Manager allow-list, the
  module fails with a message that holds every offending name, in order, and the whole
  allow-list; no call was made on the controller interface and the controller is as it
  was.
\<close>

theorem invalid_commands_fail_before_any_call:
  assumes "category p = ''Manager''"
    and "map_of CATEGORY_COMMANDS_ALL ''Manager'' = Some allowed"
    and "\<exists>cmd \<in> set (command p). cmd \<notin> set allowed"
  shows "main_ilo_redfish_config rf p c =
           (FailJson [Lit (''Invalid Command(s): '' @ apostrophe),
                      Str (PList (map PStr (filter (\<lambda>cmd. cmd \<notin> set allowed) (command p)))),
                      Lit (apostrophe @ ''. Allowed Commands = ''),
                      Str (PList (map PStr allowed))],
            [], c)"
proof -
  have "filter (\<lambda>cmd. cmd \<notin> set allowed) (command p) \<noteq> []"
    using assms(3) by (simp add: filter_empty_conv)
  then show ?thesis
    using assms(1,2)
    by (simp add: main_ilo_redfish_config_def raise_def
          offending_commands_filter [of "''Manager''" allowed])
qed

theorem invalid_commands_fail_before_any_call_witness:
  "main_ilo_redfish_config example_rf_utils (example_params [''SetTimeZone'', ''Bogus'']) [] =
     (FailJson [Lit (''Invalid Command(s): '' @ apostrophe),
                Str (PList [PStr ''Bogus'']),
                Lit (apostrophe @ ''. Allowed Commands = ''),
                Str (PList [PStr ''SetTimeZone'', PStr ''SetDNSserver'', PStr ''SetDomainName'',
                            PStr ''SetNTPServers'', PStr ''SetWINSReg''])],
      [], [])"
  using invalid_commands_fail_before_any_call
          [of "example_params [''SetTimeZone'', ''Bogus'']"
              "[''SetTimeZone'', ''SetDNSserver'', ''SetDomainName'', ''SetNTPServers'',
                ''SetWINSReg'']"
              example_rf_utils "[]"]
  by (simp add: example_params_def CATEGORY_COMMANDS_ALL_def)

text \<open>
  Claim C10. With an empty command list, once the manager resource is found, the loop
  dispatches nothing and the closing \<^verbatim>\<open>result['ret']\<close> is read from the empty dict:
  the run ends in \<^verbatim>\<open>KeyError('ret')\<close>, neither \<^verbatim>\<open>exit_json\<close> nor
  \<^verbatim>\<open>fail_json\<close>.
\<close>

theorem empty_command_list_reads_missing_ret:
  assumes "category p = ''Manager''"
    and "command p = []"
    and "find_managers_resource rf c = (resource, c1)"
    and "py_getitem (PDict resource) ''ret'' = Inr ret"
    and "py_truthy ret"
  shows "main_ilo_redfish_config rf p c = (Raised (KeyError ''ret''), [FindManagersResource], c1)"
  using assms by (simp add: main_ilo_redfish_config_def raise_def report_def)

theorem empty_command_list_reads_missing_ret_witness:
  "main_ilo_redfish_config example_rf_utils (example_params []) []
     = (Raised (KeyError ''ret''), [FindManagersResource], [])"
  using empty_command_list_reads_missing_ret
          [of "example_params []" example_rf_utils "[]" "[(''ret'', PBool True)]" "[]" "PBool True"]
  by (simp add: example_params_def example_rf_utils_def)

lemma main_valid_run:
  assumes "category p = ''Manager''"
    and "map_of CATEGORY_COMMANDS_ALL ''Manager'' = Some allowed"
    and "set (command p) \<subseteq> set allowed"
    and "find_managers_resource rf c = (resource, c1)"
    and "py_getitem (PDict resource) ''ret'' = Inr ret"
    and "py_truthy ret"
  shows "main_ilo_redfish_config rf p c =
           (case run_commands rf [(''mgr_attr_name'', attribute_name p),
                                  (''mgr_attr_value'', attribute_value p)]
                   (command p) ([], [FindManagersResource], c1) of
              (Inl e, trace, c2) \<Rightarrow> (e, trace, c2)
            | (Inr result, trace, c2) \<Rightarrow> (report result, trace, c2))"
proof -
  have "filter (\<lambda>cmd. cmd \<notin> set allowed) (command p) = []"
    using assms(3) by (auto simp: filter_empty_conv)
  then show ?thesis
    using assms(1,2,4,5,6)
    by (simp add: main_ilo_redfish_config_def raise_def
          offending_commands_filter [of "''Manager''" allowed])
qed

text \<open>
  Claim C3, as the code has it. The loop does not look at the result of a routine: when
  every name is valid and the manager resource is found, every command of the list is
  dispatched once, in the order given, whatever the earlier routines returned.
\<close>

theorem every_valid_command_dispatched:
  assumes "category p = ''Manager''"
    and "map_of CATEGORY_COMMANDS_ALL ''Manager'' = Some allowed"
    and "set (command p) \<subseteq> set allowed"
    and "find_managers_resource rf c = (resource, c1)"
    and "py_getitem (PDict resource) ''ret'' = Inr ret"
    and "py_truthy ret"
  shows "fst (snd (main_ilo_redfish_config rf p c))
           = FindManagersResource # map Dispatch (command p)"
proof -
  obtain result c2 where
    "run_commands rf [(''mgr_attr_name'', attribute_name p),
                      (''mgr_attr_value'', attribute_value p)]
       (command p) ([], [FindManagersResource], c1)
     = (Inr result, [FindManagersResource] @ map Dispatch (command p), c2)"
    using run_commands_all [OF assms(2,3), of rf _ "[]" "[FindManagersResource]" c1] by blast
  then show ?thesis
    by (simp add: main_valid_run [OF assms])
qed

theorem every_valid_command_dispatched_witness:
  "fst (snd (main_ilo_redfish_config example_rf_utils
               (example_params [''SetTimeZone'', ''SetNTPServers'', ''SetWINSReg'']) []))
     = [FindManagersResource, Dispatch ''SetTimeZone'', Dispatch ''SetNTPServers'',
        Dispatch ''SetWINSReg'']"
  using every_valid_command_dispatched
          [of "example_params [''SetTimeZone'', ''SetNTPServers'', ''SetWINSReg'']"
              "[''SetTimeZone'', ''SetDNSserver'', ''SetDomainName'', ''SetNTPServers'',
                ''SetWINSReg'']"
              example_rf_utils "[]" "[(''ret'', PBool True)]" "[]" "PBool True"]
  by (simp add: example_params_def example_rf_utils_def CATEGORY_COMMANDS_ALL_def)

theorem later_command_runs_after_failure_counterexample:
  "py_getitem
     (PDict (fst (set_time_zone example_rf_utils
                    [(''mgr_attr_name'', PStr ''TimeZone''),
                     (''mgr_attr_value'', PStr ''Chennai'')] [])))
     ''ret'' = Inr (PBool False) \<and>
   main_ilo_redfish_config example_rf_utils
     (example_params [''SetTimeZone'', ''SetDNSserver'']) []
     = (ExitJson (PBool True) [ToNative (PStr ''Modified DNSServers'')],
        [FindManagersResource, Dispatch ''SetTimeZone'', Dispatch ''SetDNSserver''],
        [''DNSServers''])"
  by (simp add: manager_run_defs)



end
